theory Spec2Isabelle
  imports Main "HOL-Library.Sublist"
begin

section \<open>Strings as the front end uses them\<close>

text \<open>
  JavaScript strings are modelled as \<^typ>\<open>string\<close>. The three string operations of
  \<^verbatim>\<open>public/script.js\<close> are written out on ASCII: \<^verbatim>\<open>trim\<close> strips tab, line feed,
  vertical tab, form feed, carriage return and space from both ends, \<^verbatim>\<open>toLowerCase\<close>
  maps \<^verbatim>\<open>A\<close>..\<^verbatim>\<open>Z\<close> to \<^verbatim>\<open>a\<close>..\<^verbatim>\<open>z\<close>, and \<^verbatim>\<open>includes\<close> searches for a
  contiguous occurrence from left to right. JavaScript also strips white space outside
  ASCII (such as U+00A0) and folds letters outside ASCII (such as U+212A); on such text
  \<open>trim\<close> and \<open>toLowerCase\<close> below do less than the code.
\<close>

definition isWhiteSpace :: "char \<Rightarrow> bool" where
  "isWhiteSpace c = (of_char c \<in> {9, 10, 11, 12, 13, 32 :: nat})"

definition trim :: "string \<Rightarrow> string" where
  "trim s = rev (dropWhile isWhiteSpace (rev (dropWhile isWhiteSpace s)))"

definition lowerChar :: "char \<Rightarrow> char" where
  "lowerChar c =
     (let n = (of_char c :: nat) in if 65 \<le> n \<and> n \<le> 90 then char_of (n + 32) else c)"

definition toLowerCase :: "string \<Rightarrow> string" where
  "toLowerCase s = map lowerChar s"

fun startsWith :: "string \<Rightarrow> string \<Rightarrow> bool" where
  "startsWith s [] = True"
| "startsWith [] (k # ks) = False"
| "startsWith (c # cs) (k # ks) = (c = k \<and> startsWith cs ks)"

fun includes_str :: "string \<Rightarrow> string \<Rightarrow> bool" where
  "includes_str [] k = (k = [])"
| "includes_str (c # cs) k = (startsWith (c # cs) k \<or> includes_str cs k)"


section \<open>The front end: \<^verbatim>\<open>public/script.js\<close>\<close>

subsection \<open>Conversation control points\<close>

definition prompts :: "string list" where
  \<open>prompts =
    [''Welcome! I am the Gemini-powered Birthday Bot. You must pass three trials of friendship to unlock your message. Send 'START' to begin!'',
     ''Alright, first trial! What is the slightly embarrassing code name we gave our favorite coffee shop? If you remember, enter it now!'',
     ''Excellent. Second Trial: What's the title of the absolutely terrible movie we watched together and vowed never to speak of again? Give me the exact title!'',
     ''Final Trial: Enter the secret phrase we say every time we leave each other's house. (This is the password!)'']\<close>

definition answers :: "string list list" where
  "answers =
    [[''start''],
     [''[COFFEE SHOP KEYWORD]'', ''[COFFEE SHOP ALT]''],
     [''[MOVIE TITLE KEYWORD]'', ''[MOVIE TITLE ALT]''],
     [''[FINAL PASSWORD KEYWORD]'']]"

definition FINAL_IMAGE_URL :: string where
  "FINAL_IMAGE_URL = ''[LINK TO YOUR BIRTHDAY IMAGE/GIF HERE]''"

definition FRIEND_NAME :: string where
  "FRIEND_NAME = ''[Friend's Name]''"

definition YOUR_NAME :: string where
  "YOUR_NAME = ''[Your Name]''"

text \<open>The two emoji of the source are written as their UTF-8 bytes.\<close>

definition FINAL_MESSAGE :: string where
  "FINAL_MESSAGE =
     ''ACCESS GRANTED! '' @ [CHR 0xF0, CHR 0x9F, CHR 0x8E, CHR 0x89] @ '' Happy Birthday ''
       @ FRIEND_NAME @ ''! Wishing you the best year ever. I love you! - '' @ YOUR_NAME"

definition CONFIRMATION :: string where
  "CONFIRMATION =
     [CHR 0xF0, CHR 0x9F, CHR 0xA4, CHR 0x96]
       @ '' [Birthday Bot]: CONGRATULATIONS! Gemini has confirmed your friendship status. Preparing transmission...''"

text \<open>
  \<^verbatim>\<open>prompts[i]\<close> inside a template literal: an index past the end reads
  \<^verbatim>\<open>undefined\<close>, which the template prints as that word.
\<close>

definition promptAt :: "nat \<Rightarrow> string" where
  "promptAt i = (if i < length prompts then prompts ! i else ''undefined'')"

subsection \<open>State, effects and the answer of the back end\<close>

record client =
  stage :: nat
  inputDisabled :: bool
  sendDisabled :: bool

text \<open>
  What \<^verbatim>\<open>processInput\<close> does to the page and to the network, in program order. A timer
  carries its delay in milliseconds and the effects of its callback.
\<close>

datatype action =
    AddMessage string string
  | AddImageMessage string
  | ShowTypingIndicator
  | RemoveTyping
  | CreateConfetti
  | LockControls
  | Fetch string
  | LogFrontendError
  | SetTimeout nat "action list"

text \<open>
  The outcome of \<^verbatim>\<open>fetch\<close> followed by \<^verbatim>\<open>response.json()\<close>: either of them throws, or
  a JSON object arrives whose \<^verbatim>\<open>botResponse\<close> field is absent or a string.
\<close>

datatype reply = Thrown | Data "string option"

text \<open>
  The branch taken by the local check of lines 102 to 138: the spec calls the two
  branches Advance and Retry.
\<close>

datatype verdict = Advance | Retry

datatype next_step = Reveal | Relay string

subsection \<open>The local check (lines 102 to 138 of \<^verbatim>\<open>processInput\<close>)\<close>

definition isCorrect :: "nat \<Rightarrow> string \<Rightarrow> bool" where
  "isCorrect stg input =
     (let currentAnswers = answers ! stg;
          normalizedInput = toLowerCase input
      in list_ex (\<lambda>keyword. includes_str normalizedInput (toLowerCase keyword)) currentAnswers)"

text \<open>
  \<open>evaluate stg input\<close> is the block guarded by \<^verbatim>\<open>stage >= 0 && stage < answers.length\<close>,
  run on the trimmed input: it returns the branch taken (none when the guard is false),
  the new value of \<^verbatim>\<open>stage\<close>, and either the early return of the final reveal or the
  text \<^verbatim>\<open>geminiInput\<close> to post.
\<close>

definition evaluate :: "nat \<Rightarrow> string \<Rightarrow> verdict option \<times> nat \<times> next_step" where
  \<open>evaluate stg input =
     (if 0 \<le> stg \<and> stg < length answers then
        (if isCorrect stg input then
           (let stg' = stg + 1 in
            if stg' = length prompts then (Some Advance, stg', Reveal)
            else (Some Advance, stg',
                  Relay (''USER ANSWERED CORRECTLY: '' @ input
                         @ ''. Prompt the next question: "'' @ promptAt stg'
                         @ ''". Be humorous and congratulate the user.'')))
         else
           (Some Retry, stg,
            Relay (''USER ANSWERED INCORRECTLY: '' @ input
                   @ '' to the question: "'' @ promptAt stg
                   @ ''". Be humorous and mock them lightly, then ask the same question again.'')))
      else (None, stg, Relay input))\<close>

subsection \<open>\<^verbatim>\<open>processInput\<close>\<close>

definition afterFetch :: "reply \<Rightarrow> action list" where
  "afterFetch r =
     (case r of
        Thrown \<Rightarrow>
          [LogFrontendError, RemoveTyping,
           AddMessage ''Server communication error. Is the Node.js server running?'' ''bot'']
      | Data botResponse \<Rightarrow>
          (case botResponse of
             None \<Rightarrow>
               [RemoveTyping,
                AddMessage ([CHR 0xF0, CHR 0x9F, CHR 0xA4, CHR 0x96]
                            @ '' [Birthday Bot]: Server response error. Try again!'') ''bot'']
           | Some text \<Rightarrow>
               if text \<noteq> [] then [RemoveTyping, AddMessage text ''bot'']
               else
                 [RemoveTyping,
                  AddMessage ([CHR 0xF0, CHR 0x9F, CHR 0xA4, CHR 0x96]
                              @ '' [Birthday Bot]: Server response error. Try again!'') ''bot'']))"

text \<open>
  \<open>processInput c v r\<close>: \<open>v\<close> is \<^verbatim>\<open>userInput.value\<close> and \<open>r\<close> the outcome of the
  request, read only when the request is made.
\<close>

definition processInput :: "client \<Rightarrow> string \<Rightarrow> reply \<Rightarrow> action list \<times> client" where
  "processInput c v r =
     (let input = trim v in
      if input = [] then ([], c)
      else
        (let c1 = c\<lparr>inputDisabled := True, sendDisabled := True\<rparr>;
             shown = [AddMessage input ''user'', ShowTypingIndicator]
         in case evaluate (stage c1) input of
              (_, stg', Reveal) \<Rightarrow>
                (shown @
                 [RemoveTyping,
                  AddMessage CONFIRMATION ''bot'',
                  SetTimeout 1000
                    [CreateConfetti,
                     AddImageMessage FINAL_IMAGE_URL,
                     SetTimeout 1000 [AddMessage FINAL_MESSAGE ''bot'', LockControls]]],
                 c1\<lparr>stage := stg'\<rparr>)
            | (_, stg', Relay geminiInput) \<Rightarrow>
                (shown @ [Fetch geminiInput] @ afterFetch r,
                 c1\<lparr>stage := stg', inputDisabled := False, sendDisabled := False\<rparr>)))"

text \<open>The requests an effect list makes, timers included.\<close>

fun fetches :: "action \<Rightarrow> string list" where
  "fetches (Fetch m) = [m]"
| "fetches (SetTimeout d as) = concat (map fetches as)"
| "fetches _ = []"

text \<open>
  A session starts at \<^verbatim>\<open>stage = 0\<close> with the controls enabled, and handles its turns
  one after the other: the controls stay disabled while a request is in flight. A turn
  is recorded as the stage before it, the text typed, and the stage after it.
\<close>

definition initial :: client where
  "initial = \<lparr>stage = 0, inputDisabled = False, sendDisabled = False\<rparr>"

fun stages :: "client \<Rightarrow> (string \<times> reply) list \<Rightarrow> nat list" where
  "stages c [] = [stage c]"
| "stages c (t # ts) = stage c # stages (snd (processInput c (fst t) (snd t))) ts"

fun turns :: "client \<Rightarrow> (string \<times> reply) list \<Rightarrow> (nat \<times> string \<times> nat) list" where
  "turns c [] = []"
| "turns c (t # ts) =
     (stage c, fst t, stage (snd (processInput c (fst t) (snd t))))
       # turns (snd (processInput c (fst t) (snd t))) ts"

text \<open>
  The branch of the local check that \<^verbatim>\<open>processInput\<close> takes at stage \<open>s\<close> on the typed
  text \<open>v\<close>: none when it returns on empty input or when the guard is false.
\<close>

definition verdictAt :: "nat \<Rightarrow> string \<Rightarrow> verdict option" where
  "verdictAt s v = (if trim v = [] then None else fst (evaluate s (trim v)))"

text \<open>
  The spec's notion of an accepted answer, in its own words: the trimmed, case-folded
  text contains some accepted answer of the stage, case-folded, as a substring.
\<close>

definition accepted :: "nat \<Rightarrow> string \<Rightarrow> bool" where
  "accepted s v =
     (s < length answers \<and>
      (\<exists>k \<in> set (answers ! s). sublist (toLowerCase k) (toLowerCase (trim v))))"


section \<open>The back end: \<^verbatim>\<open>server.js\<close>\<close>

subsection \<open>Errors, the world outside, and what a handler does\<close>

text \<open>
  A thrown JavaScript error, as far as the code reads it: its message, and its
  \<^verbatim>\<open>status\<close> property, which is \<^verbatim>\<open>undefined\<close> unless the Gemini client set it.
\<close>

datatype js_error = JsError (err_message: string) (status: "int option")

text \<open>
  The collaborators the server awaits. \<open>sendMessage w i m\<close> is the outcome of the call of
  \<^verbatim>\<open>chat.sendMessage\<close> made by attempt \<open>i\<close> with message \<open>m\<close>: a thrown error or the
  reply text. \<open>insertError w sender m\<close> is the error with which the database rejects the
  insert of that row, if it does; \<open>selectError w\<close> likewise for the query of the admin
  endpoint. The running conversation inside \<^verbatim>\<open>chat\<close> is part of this world and is not
  modelled further.
\<close>

record world =
  sendMessage :: "nat \<Rightarrow> string \<Rightarrow> js_error + string"
  insertError :: "string \<Rightarrow> string \<Rightarrow> js_error option"
  selectError :: "js_error option"

text \<open>
  The process holds the global \<^verbatim>\<open>db\<close>, unset until a connection object is stored in
  it. The relation \<^verbatim>\<open>messages\<close> lives in the database: its rows are kept in insertion
  order with the two columns the code supplies (\<^verbatim>\<open>id\<close> and \<^verbatim>\<open>timestamp\<close> are filled in
  by the database).
\<close>

datatype connection = Connection

record server =
  db :: "connection option"
  messages :: "(string \<times> string) list"

datatype body = ErrorBody string | BotResponse string | Rows "(string \<times> string) list"

text \<open>
  What a handler does, in program order: database statements issued, calls of the
  Gemini client (with the attempt number), console output, timers awaited (in
  milliseconds), the HTTP response (status and JSON body), and an error that leaves the
  handler uncaught.
\<close>

datatype event =
    DbInsert string string
  | DbSelect
  | SendMessage nat string
  | ConsoleWarn "int option" nat
  | ConsoleError string
  | Sleep nat
  | Respond nat body
  | Uncaught js_error

subsection \<open>\<^verbatim>\<open>saveMessage\<close>\<close>

definition saveMessage ::
  "world \<Rightarrow> server \<Rightarrow> string \<Rightarrow> string \<Rightarrow> (js_error + unit) \<times> event list \<times> server" where
  "saveMessage w s sender msg =
     (case db s of
        None \<Rightarrow> (Inr (), [ConsoleError ''Database connection not established.''], s)
      | Some _ \<Rightarrow>
          (case insertError w sender msg of
             Some e \<Rightarrow> (Inl e, [DbInsert sender msg], s)
           | None \<Rightarrow>
               (Inr (), [DbInsert sender msg], s\<lparr>messages := messages s @ [(sender, msg)]\<rparr>)))"

subsection \<open>\<^verbatim>\<open>sendMessageWithRetry\<close>\<close>

definition unavailable :: js_error where
  "unavailable = JsError ''Gemini service unavailable after multiple retries.'' None"

definition transient :: "js_error \<Rightarrow> bool" where
  "transient e = (status e = Some 503 \<or> status e = Some 500)"

text \<open>\<open>preceded evs r\<close>: the result \<open>r\<close> of the rest of a run, with \<open>evs\<close> done first.\<close>

definition preceded :: "event list \<Rightarrow> 'a \<times> event list \<Rightarrow> 'a \<times> event list" where
  "preceded evs r = (fst r, evs @ snd r)"

text \<open>The \<^verbatim>\<open>for\<close> loop, entered at index \<open>i\<close>.\<close>

function retryLoop ::
  "world \<Rightarrow> string \<Rightarrow> nat \<Rightarrow> nat \<Rightarrow> (js_error + string) \<times> event list" where
  "retryLoop w msg retries i =
     (if i < retries then
        (case sendMessage w i msg of
           Inr text \<Rightarrow> (Inr text, [SendMessage i msg])
         | Inl e \<Rightarrow>
             if transient e then
               preceded
                 (SendMessage i msg # ConsoleWarn (status e) (2 ^ i)
                    # (if int i < int retries - 1 then [Sleep (2 ^ i * 1000)] else []))
                 (retryLoop w msg retries (i + 1))
             else (Inl e, [SendMessage i msg]))
      else (Inl unavailable, []))"
  by pat_completeness auto
termination
  by (relation "measure (\<lambda>(w, msg, retries, i). retries - i)") auto

definition sendMessageWithRetry ::
  "world \<Rightarrow> string \<Rightarrow> nat \<Rightarrow> (js_error + string) \<times> event list" where
  "sendMessageWithRetry w msg retries = retryLoop w msg retries 0"


subsection \<open>\<^verbatim>\<open>POST /api/chat\<close>\<close>

text \<open>
  The \<^verbatim>\<open>catch\<close> block: \<open>evs\<close> is what the \<^verbatim>\<open>try\<close> block did before it threw. An error
  thrown by \<^verbatim>\<open>saveMessage\<close> here is caught by nothing in the handler.
\<close>

definition chatCatch :: "world \<Rightarrow> server \<Rightarrow> string \<Rightarrow> event list \<Rightarrow> event list \<times> server" where
  "chatCatch w s msg evs =
     (case saveMessage w s ''System Error'' (''Failed to get Gemini response for: '' @ msg) of
        (Inl e, evs', s') \<Rightarrow>
          (evs @ [ConsoleError ''Server Error during Chat:''] @ evs' @ [Uncaught e], s')
      | (Inr _, evs', s') \<Rightarrow>
          (evs @ [ConsoleError ''Server Error during Chat:''] @ evs'
             @ [Respond 500 (ErrorBody ''Internal server error. Please try again.'')], s'))"

text \<open>
  The handler. The field \<^verbatim>\<open>message\<close> of the request body is absent or a string; it is
  falsy when absent or empty.
\<close>

definition postChat :: "world \<Rightarrow> server \<Rightarrow> string option \<Rightarrow> event list \<times> server" where
  "postChat w s message =
     (case message of
        None \<Rightarrow> ([Respond 400 (ErrorBody ''No message provided.'')], s)
      | Some msg \<Rightarrow>
          if msg = [] then ([Respond 400 (ErrorBody ''No message provided.'')], s)
          else
            (case saveMessage w s ''User'' msg of
               (Inl e, evs1, s1) \<Rightarrow> chatCatch w s1 msg evs1
             | (Inr _, evs1, s1) \<Rightarrow>
                 (case sendMessageWithRetry w msg 3 of
                    (Inl e, evs2) \<Rightarrow> chatCatch w s1 msg (evs1 @ evs2)
                  | (Inr botResponseText, evs2) \<Rightarrow>
                      (case saveMessage w s1 ''Bot'' botResponseText of
                         (Inl e, evs3, s3) \<Rightarrow> chatCatch w s3 msg (evs1 @ evs2 @ evs3)
                       | (Inr _, evs3, s3) \<Rightarrow>
                           (evs1 @ evs2 @ evs3
                              @ [Respond 200 (BotResponse botResponseText)], s3)))))"

subsection \<open>\<^verbatim>\<open>GET /api/admin/conversations\<close>\<close>

definition getConversations :: "world \<Rightarrow> server \<Rightarrow> event list" where
  "getConversations w s =
     (case db s of
        None \<Rightarrow> [Respond 503 (ErrorBody ''Database not ready.'')]
      | Some _ \<Rightarrow>
          (case selectError w of
             None \<Rightarrow> [DbSelect, Respond 200 (Rows (messages s))]
           | Some e \<Rightarrow>
               [DbSelect, ConsoleError ''Admin Endpoint Error:'',
                Respond 500 (ErrorBody ''Could not retrieve conversations.'')]))"

subsection \<open>Reading a run\<close>

text \<open>
  The attempts of a run, and the time awaited before each of them: the timers awaited
  since the previous attempt, or since the start for the first.
\<close>

fun attempts :: "event list \<Rightarrow> nat list" where
  "attempts [] = []"
| "attempts (SendMessage i m # evs) = i # attempts evs"
| "attempts (_ # evs) = attempts evs"

fun delaysFrom :: "nat \<Rightarrow> event list \<Rightarrow> nat list" where
  "delaysFrom acc [] = []"
| "delaysFrom acc (Sleep d # evs) = delaysFrom (acc + d) evs"
| "delaysFrom acc (SendMessage i m # evs) = acc # delaysFrom 0 evs"
| "delaysFrom acc (_ # evs) = delaysFrom acc evs"

definition delaysBefore :: "event list \<Rightarrow> nat list" where
  "delaysBefore evs = delaysFrom 0 evs"

fun inserts :: "event list \<Rightarrow> (string \<times> string) list" where
  "inserts [] = []"
| "inserts (DbInsert sender m # evs) = (sender, m) # inserts evs"
| "inserts (_ # evs) = inserts evs"

fun responses :: "event list \<Rightarrow> (nat \<times> body) list" where
  "responses [] = []"
| "responses (Respond code b # evs) = (code, b) # responses evs"
| "responses (_ # evs) = responses evs"


section \<open>The earlier server for Railway with SQLite (\<^verbatim>\<open>src/unnamed/part_001\<close>)\<close>

text \<open>
  The repository keeps two earlier versions of \<^verbatim>\<open>server.js\<close>. The first
  (\<^verbatim>\<open>src/unnamed/part_000\<close>) has the functions above up to the texts it logs and sends.
  The second differs in its code: its retry loop awaits the timer after the last
  attempt too, its chat handler stores the sender it is given and records a failure
  under the sender \<^verbatim>\<open>System\<close>, and its admin endpoint reads \<^verbatim>\<open>db\<close> without testing it.
\<close>

definition saveMessage_railway ::
  "world \<Rightarrow> server \<Rightarrow> string \<Rightarrow> string \<Rightarrow> (js_error + unit) \<times> event list \<times> server" where
  "saveMessage_railway w s sender msg =
     (case db s of
        None \<Rightarrow> (Inr (), [ConsoleError ''Database not initialized.''], s)
      | Some _ \<Rightarrow>
          (case insertError w sender msg of
             Some e \<Rightarrow> (Inl e, [DbInsert sender msg], s)
           | None \<Rightarrow>
               (Inr (), [DbInsert sender msg], s\<lparr>messages := messages s @ [(sender, msg)]\<rparr>)))"

definition unavailable_railway :: js_error where
  "unavailable_railway = JsError ''Gemini service unavailable after retries.'' None"

function retryLoop_railway ::
  "world \<Rightarrow> string \<Rightarrow> nat \<Rightarrow> nat \<Rightarrow> (js_error + string) \<times> event list" where
  "retryLoop_railway w msg retries i =
     (if i < retries then
        (case sendMessage w i msg of
           Inr text \<Rightarrow> (Inr text, [SendMessage i msg])
         | Inl e \<Rightarrow>
             if transient e then
               preceded
                 [SendMessage i msg, ConsoleWarn (status e) (2 ^ i), Sleep (2 ^ i * 1000)]
                 (retryLoop_railway w msg retries (i + 1))
             else (Inl e, [SendMessage i msg]))
      else (Inl unavailable_railway, []))"
  by pat_completeness auto
termination
  by (relation "measure (\<lambda>(w, msg, retries, i). retries - i)") auto

definition sendMessageWithRetry_railway ::
  "world \<Rightarrow> string \<Rightarrow> nat \<Rightarrow> (js_error + string) \<times> event list" where
  "sendMessageWithRetry_railway w msg retries = retryLoop_railway w msg retries 0"

definition chatCatch_railway :: "world \<Rightarrow> server \<Rightarrow> event list \<Rightarrow> event list \<times> server" where
  "chatCatch_railway w s evs =
     (case saveMessage_railway w s ''System'' ''Gemini failure during reply.'' of
        (Inl e, evs', s') \<Rightarrow> (evs @ [ConsoleError ''Chat Error:''] @ evs' @ [Uncaught e], s')
      | (Inr _, evs', s') \<Rightarrow>
          (evs @ [ConsoleError ''Chat Error:''] @ evs'
             @ [Respond 500 (ErrorBody ''AI model failed. Try again.'')], s'))"

text \<open>\<^verbatim>\<open>sender || "User"\<close>: an absent or empty sender is replaced.\<close>

definition senderOrUser :: "string option \<Rightarrow> string" where
  "senderOrUser sender =
     (case sender of None \<Rightarrow> ''User'' | Some x \<Rightarrow> if x = [] then ''User'' else x)"

definition postChat_railway ::
  "world \<Rightarrow> server \<Rightarrow> string option \<Rightarrow> string option \<Rightarrow> event list \<times> server" where
  "postChat_railway w s message sender =
     (case message of
        None \<Rightarrow> ([Respond 400 (ErrorBody ''Message is required.'')], s)
      | Some msg \<Rightarrow>
          if msg = [] then ([Respond 400 (ErrorBody ''Message is required.'')], s)
          else
            (case saveMessage_railway w s (senderOrUser sender) msg of
               (Inl e, evs1, s1) \<Rightarrow> chatCatch_railway w s1 evs1
             | (Inr _, evs1, s1) \<Rightarrow>
                 (case sendMessageWithRetry_railway w msg 3 of
                    (Inl e, evs2) \<Rightarrow> chatCatch_railway w s1 (evs1 @ evs2)
                  | (Inr botReply, evs2) \<Rightarrow>
                      (case saveMessage_railway w s1 ''Bot'' botReply of
                         (Inl e, evs3, s3) \<Rightarrow> chatCatch_railway w s3 (evs1 @ evs2 @ evs3)
                       | (Inr _, evs3, s3) \<Rightarrow>
                           (evs1 @ evs2 @ evs3 @ [Respond 200 (BotResponse botReply)], s3)))))"

text \<open>
  With \<^verbatim>\<open>db\<close> unset, \<^verbatim>\<open>db.all\<close> throws a TypeError inside the \<^verbatim>\<open>try\<close> block before any
  statement is issued.
\<close>

definition getConversations_railway :: "world \<Rightarrow> server \<Rightarrow> event list" where
  "getConversations_railway w s =
     (case db s of
        None \<Rightarrow>
          [ConsoleError ''Admin Fetch Error:'',
           Respond 500 (ErrorBody ''Could not fetch conversations.'')]
      | Some _ \<Rightarrow>
          (case selectError w of
             None \<Rightarrow> [DbSelect, Respond 200 (Rows (messages s))]
           | Some e \<Rightarrow>
               [DbSelect, ConsoleError ''Admin Fetch Error:'',
                Respond 500 (ErrorBody ''Could not fetch conversations.'')]))"


section \<open>Worlds and states for concrete runs\<close>

text \<open>A server whose connection is established and whose table is empty, and one whose
  \<^verbatim>\<open>db\<close> is unset.\<close>

definition ready :: server where
  "ready = \<lparr>db = Some Connection, messages = []\<rparr>"

definition unset :: server where
  "unset = \<lparr>db = None, messages = []\<rparr>"

text \<open>Gemini answers at once and the database accepts every statement.\<close>

definition healthy :: world where
  "healthy =
     \<lparr>sendMessage = (\<lambda>i m. Inr ''Hello!''),
      insertError = (\<lambda>sender m. None),
      selectError = None\<rparr>"

text \<open>Gemini answers 503 to every call.\<close>

definition busy :: world where
  "busy =
     \<lparr>sendMessage = (\<lambda>i m. Inl (JsError ''The model is overloaded.'' (Some 503))),
      insertError = (\<lambda>sender m. None),
      selectError = None\<rparr>"

text \<open>
  Gemini rejects the request with a status that is not retried, and the database rejects
  the insert of the row of the failure only.
\<close>

definition failureRowRejected :: world where
  "failureRowRejected =
     \<lparr>sendMessage = (\<lambda>i m. Inl (JsError ''API key not valid.'' (Some 400))),
      insertError =
        (\<lambda>sender m. if sender = ''System Error''
                      then Some (JsError ''connection terminated'' None) else None),
      selectError = None\<rparr>"



section \<open>The front end: properties\<close>

subsection \<open>Substring search and the accepted answers\<close>

lemma startsWith_prefix: "startsWith s k = prefix k s"
  by (induction s k rule: startsWith.induct) auto

lemma includes_str_sublist: "includes_str s k = sublist k s"
proof (induction s)
  case Nil
  show ?case by simp
next
  case (Cons c cs)
  show ?case
    by (simp only: includes_str.simps startsWith_prefix Cons.IH sublist_Cons_right)
qed

lemma length_answers: "length answers = 4"
  by (simp add: answers_def)

lemma length_prompts: "length prompts = 4"
  by (simp add: prompts_def)

lemma isCorrect_iff:
  "isCorrect stg input =
     (\<exists>k \<in> set (answers ! stg). sublist (toLowerCase k) (toLowerCase input))"
  by (simp add: isCorrect_def list_ex_iff includes_str_sublist)

lemma keywords_nonempty: "s < length answers \<Longrightarrow> k \<in> set (answers ! s) \<Longrightarrow> k \<noteq> []"
proof -
  assume "s < length answers" and k: "k \<in> set (answers ! s)"
  then have "s = 0 \<or> s = 1 \<or> s = 2 \<or> s = 3" by (simp add: length_answers) arith
  with k show ?thesis by (auto simp: answers_def)
qed

lemma accepted_nonempty: "accepted s v \<Longrightarrow> trim v \<noteq> []"
proof
  assume a: "accepted s v" and e: "trim v = []"
  from a obtain k where s: "s < length answers" and k: "k \<in> set (answers ! s)"
    and sub: "sublist (toLowerCase k) (toLowerCase (trim v))"
    by (auto simp: accepted_def)
  from sub e have "toLowerCase k = []" by (simp add: toLowerCase_def)
  then have "k = []" by (simp add: toLowerCase_def)
  with keywords_nonempty[OF s k] show False by simp
qed

lemma accepted_isCorrect: "accepted s v = (s < length answers \<and> isCorrect s (trim v))"
  by (simp add: accepted_def isCorrect_iff)

lemma stage_processInput:
  "stage (snd (processInput c v r)) = (if accepted (stage c) v then stage c + 1 else stage c)"
proof (cases "trim v = []")
  case True
  then have "\<not> accepted (stage c) v" using accepted_nonempty by blast
  with True show ?thesis by (simp add: processInput_def)
next
  case False
  then show ?thesis
    by (simp add: processInput_def evaluate_def accepted_isCorrect Let_def)
qed

subsection \<open>The local check\<close>

text \<open>
  C1. At every stage \<open>s\<close> below the number of challenges, the local check run on the
  trimmed text takes the Advance branch and moves the stage to \<open>s + 1\<close> when the
  trimmed, case-folded text contains a case-folded accepted answer of stage \<open>s\<close> as a
  substring, and takes the Retry branch and leaves the stage at \<open>s\<close> otherwise. The
  variable \<^verbatim>\<open>stage\<close> of the page changes in the same way.
\<close>

theorem gatekeeper_evaluate:
  assumes "s < length answers"
  shows "fst (evaluate s (trim v)) = (if accepted s v then Some Advance else Some Retry)
       \<and> fst (snd (evaluate s (trim v))) = (if accepted s v then s + 1 else s)
       \<and> stage (snd (processInput (c\<lparr>stage := s\<rparr>) v r)) = (if accepted s v then s + 1 else s)"
  using assms by (simp add: evaluate_def accepted_isCorrect Let_def stage_processInput)

text \<open>At stage 0 the text \<^verbatim>\<open>please START now\<close> advances; at stage 1 \<^verbatim>\<open>banana\<close> does not.\<close>

theorem gatekeeper_evaluate_witness:
  "(0::nat) < length answers
   \<and> accepted 0 ''  please START now ''
   \<and> fst (evaluate 0 (trim ''  please START now '')) = Some Advance
   \<and> fst (snd (evaluate 0 (trim ''  please START now ''))) = 1
   \<and> \<not> accepted 1 ''banana''
   \<and> fst (evaluate 1 (trim ''banana'')) = Some Retry
   \<and> fst (snd (evaluate 1 (trim ''banana''))) = 1"
proof -
  have h0: "(0::nat) < length answers" and h1: "(1::nat) < length answers"
    by (simp_all add: length_answers)
  have a0: "accepted 0 ''  please START now ''" by code_simp
  have a1: "\<not> accepted 1 ''banana''" by code_simp
  show ?thesis
    using gatekeeper_evaluate[OF h0, of "''  please START now ''"]
          gatekeeper_evaluate[OF h1, of "''banana''"] h0 a0 a1
    by simp
qed

subsection \<open>The final reveal\<close>

text \<open>
  C6. At the last stage an accepted answer ends the turn early: the page shows the
  text typed and the typing indicator, removes the indicator, shows the confirmation,
  and starts a timer of 1000 ms whose callback shows the confetti and the image and
  starts a second timer of 1000 ms, whose callback shows the final message and locks the
  controls. No request is sent to the back end, the stage becomes the number of
  challenges, and the controls stay disabled.
\<close>

theorem final_reveal:
  assumes "stage c = length answers - 1" and "accepted (stage c) v"
  shows "processInput c v r =
           ([AddMessage (trim v) ''user'', ShowTypingIndicator, RemoveTyping,
             AddMessage CONFIRMATION ''bot'',
             SetTimeout 1000
               [CreateConfetti, AddImageMessage FINAL_IMAGE_URL,
                SetTimeout 1000 [AddMessage FINAL_MESSAGE ''bot'', LockControls]]],
            c\<lparr>inputDisabled := True, sendDisabled := True, stage := length answers\<rparr>)
       \<and> concat (map fetches (fst (processInput c v r))) = []"
proof -
  from assms(2) have ne: "trim v \<noteq> []" by (rule accepted_nonempty)
  from assms(2) have ok: "isCorrect (stage c) (trim v)" by (simp add: accepted_isCorrect)
  from assms(1) have st: "stage c = 3" by (simp add: length_answers)
  have ev: "evaluate (stage c) (trim v) = (Some Advance, 4, Reveal)"
    using ok st by (simp add: evaluate_def length_answers length_prompts)
  have run: "processInput c v r =
           ([AddMessage (trim v) ''user'', ShowTypingIndicator, RemoveTyping,
             AddMessage CONFIRMATION ''bot'',
             SetTimeout 1000
               [CreateConfetti, AddImageMessage FINAL_IMAGE_URL,
                SetTimeout 1000 [AddMessage FINAL_MESSAGE ''bot'', LockControls]]],
            c\<lparr>inputDisabled := True, sendDisabled := True, stage := length answers\<rparr>)"
    using ne ev by (simp add: processInput_def Let_def length_answers)
  show ?thesis
    by (simp add: run)
qed

text \<open>The final password, typed with other words around it, at stage 3.\<close>

theorem final_reveal_witness:
  "stage (initial\<lparr>stage := 3\<rparr>) = length answers - 1
   \<and> accepted (stage (initial\<lparr>stage := 3\<rparr>)) '' My [Final Password Keyword]! ''
   \<and> processInput (initial\<lparr>stage := 3\<rparr>) '' My [Final Password Keyword]! '' Thrown =
           ([AddMessage ''My [Final Password Keyword]!'' ''user'', ShowTypingIndicator, RemoveTyping,
             AddMessage CONFIRMATION ''bot'',
             SetTimeout 1000
               [CreateConfetti, AddImageMessage FINAL_IMAGE_URL,
                SetTimeout 1000 [AddMessage FINAL_MESSAGE ''bot'', LockControls]]],
            \<lparr>stage = 4, inputDisabled = True, sendDisabled = True\<rparr>)"
proof -
  have h: "stage (initial\<lparr>stage := 3\<rparr>) = length answers - 1"
    by (simp add: length_answers)
  have a: "accepted (stage (initial\<lparr>stage := 3\<rparr>)) '' My [Final Password Keyword]! ''"
    by code_simp
  have t: "trim '' My [Final Password Keyword]! '' = ''My [Final Password Keyword]!''"
    by code_simp
  show ?thesis
    using final_reveal[OF h a, of Thrown] h a
    by (simp add: t initial_def length_answers)
qed

subsection \<open>The stage over a session\<close>

lemma stage_step_le: "stage c \<le> stage (snd (processInput c v r))"
  by (simp add: stage_processInput)

lemma stage_step_bound:
  "stage c \<le> length answers \<Longrightarrow> stage (snd (processInput c v r)) \<le> length answers"
  by (auto simp: stage_processInput accepted_def)

lemma stages_lower: "y \<in> set (stages c ts) \<Longrightarrow> stage c \<le> y"
proof (induction ts arbitrary: c)
  case Nil
  then show ?case by simp
next
  case (Cons t ts)
  from Cons.prems have "y = stage c \<or> y \<in> set (stages (snd (processInput c (fst t) (snd t))) ts)"
    by simp
  then show ?case
  proof
    assume "y = stage c" then show ?thesis by simp
  next
    assume "y \<in> set (stages (snd (processInput c (fst t) (snd t))) ts)"
    then have "stage (snd (processInput c (fst t) (snd t))) \<le> y" by (rule Cons.IH)
    with stage_step_le[of c "fst t" "snd t"] show ?thesis by (rule le_trans)
  qed
qed

lemma stages_sorted: "sorted (stages c ts)"
proof (induction ts arbitrary: c)
  case Nil
  show ?case by simp
next
  case (Cons t ts)
  have "\<forall>y \<in> set (stages (snd (processInput c (fst t) (snd t))) ts). stage c \<le> y"
    using stages_lower stage_step_le le_trans by blast
  with Cons.IH show ?case by simp
qed

lemma stages_bounded:
  "stage c \<le> length answers \<Longrightarrow> \<forall>s \<in> set (stages c ts). s \<le> length answers"
proof (induction ts arbitrary: c)
  case Nil
  then show ?case by simp
next
  case (Cons t ts)
  from Cons.prems have "stage (snd (processInput c (fst t) (snd t))) \<le> length answers"
    by (rule stage_step_bound)
  then have "\<forall>s \<in> set (stages (snd (processInput c (fst t) (snd t))) ts). s \<le> length answers"
    by (rule Cons.IH)
  with Cons.prems show ?case by simp
qed

lemma verdictAt_terminal: "verdictAt (length answers) v = None"
  by (simp add: verdictAt_def evaluate_def)

lemma turns_steps:
  "\<forall>(s, v, s') \<in> set (turns c ts).
      s' = (if accepted s v then s + 1 else s) \<and> (s = length answers \<longrightarrow> verdictAt s v = None)"
proof (induction ts arbitrary: c)
  case Nil
  show ?case by simp
next
  case (Cons t ts)
  show ?case
    using Cons.IH[of "snd (processInput c (fst t) (snd t))"]
    by (simp add: stage_processInput verdictAt_terminal)
qed

text \<open>
  C7. Over every session that starts at a stage not above the number of challenges,
  the stages visited never decrease and never exceed the number of challenges; every
  turn raises the stage by exactly one when its answer is accepted and leaves it
  unchanged otherwise; and a turn taken at the terminal stage runs no local check.
\<close>

theorem stage_progress:
  assumes "stage c \<le> length answers"
  shows "sorted (stages c ts)
       \<and> (\<forall>s \<in> set (stages c ts). s \<le> length answers)
       \<and> (\<forall>(s, v, s') \<in> set (turns c ts).
            s' = (if accepted s v then s + 1 else s)
            \<and> (s = length answers \<longrightarrow> verdictAt s v = None))"
proof (intro conjI)
  show "sorted (stages c ts)" by (rule stages_sorted)
  show "\<forall>s \<in> set (stages c ts). s \<le> length answers"
    using assms by (rule stages_bounded)
  show "\<forall>(s, v, s') \<in> set (turns c ts).
            s' = (if accepted s v then s + 1 else s)
            \<and> (s = length answers \<longrightarrow> verdictAt s v = None)"
    by (rule turns_steps)
qed

text \<open>
  A session of six turns from the initial state: it passes the four challenges with one
  wrong answer on the way, and types once more after the reveal.
\<close>

theorem stage_progress_witness:
  "stage initial \<le> length answers
   \<and> sorted (stages initial
        [(''start'', Data (Some ''ok'')), (''banana'', Data None),
         (''the [coffee shop alt]'', Thrown), (''[MOVIE TITLE KEYWORD]'', Data (Some ''ok'')),
         ('' [final password keyword]'', Thrown), (''start'', Data (Some ''ok''))])
   \<and> stages initial
        [(''start'', Data (Some ''ok'')), (''banana'', Data None),
         (''the [coffee shop alt]'', Thrown), (''[MOVIE TITLE KEYWORD]'', Data (Some ''ok'')),
         ('' [final password keyword]'', Thrown), (''start'', Data (Some ''ok''))]
       = [0, 1, 1, 2, 3, 4, 4]
   \<and> turns initial
        [(''start'', Data (Some ''ok'')), (''banana'', Data None),
         (''the [coffee shop alt]'', Thrown), (''[MOVIE TITLE KEYWORD]'', Data (Some ''ok'')),
         ('' [final password keyword]'', Thrown), (''start'', Data (Some ''ok''))]
       = [(0, ''start'', 1), (1, ''banana'', 1), (1, ''the [coffee shop alt]'', 2),
          (2, ''[MOVIE TITLE KEYWORD]'', 3), (3, '' [final password keyword]'', 4),
          (4, ''start'', 4)]
   \<and> verdictAt 4 ''start'' = None"
proof -
  let ?c1 = "snd (processInput initial ''start'' (Data (Some ''ok'')))"
  let ?c2 = "snd (processInput ?c1 ''banana'' (Data None))"
  let ?c3 = "snd (processInput ?c2 ''the [coffee shop alt]'' Thrown)"
  let ?c4 = "snd (processInput ?c3 ''[MOVIE TITLE KEYWORD]'' (Data (Some ''ok'')))"
  let ?c5 = "snd (processInput ?c4 '' [final password keyword]'' Thrown)"
  let ?c6 = "snd (processInput ?c5 ''start'' (Data (Some ''ok'')))"
  let ?S = "[(''start'', Data (Some ''ok'')), (''banana'', Data None),
         (''the [coffee shop alt]'', Thrown), (''[MOVIE TITLE KEYWORD]'', Data (Some ''ok'')),
         ('' [final password keyword]'', Thrown), (''start'', Data (Some ''ok''))]"
  have h: "stage initial \<le> length answers" by (simp add: initial_def)
  have a1: "accepted 0 ''start''" by code_simp
  have a2: "\<not> accepted (Suc 0) ''banana''" by code_simp
  have a3: "accepted (Suc 0) ''the [coffee shop alt]''" by code_simp
  have a4: "accepted 2 ''[MOVIE TITLE KEYWORD]''" by code_simp
  have a5: "accepted 3 '' [final password keyword]''" by code_simp
  have a6: "\<not> accepted 4 ''start''" by (simp add: accepted_def length_answers)
  have s0: "stage initial = 0" by (simp add: initial_def)
  have s1: "stage ?c1 = 1" by (simp add: stage_processInput[of initial] s0 a1)
  have s2: "stage ?c2 = 1" by (simp add: stage_processInput[of ?c1] s1 a2)
  have s3: "stage ?c3 = 2" by (simp add: stage_processInput[of ?c2] s2 a3)
  have s4: "stage ?c4 = 3" by (simp add: stage_processInput[of ?c3] s3 a4)
  have s5: "stage ?c5 = 4" by (simp add: stage_processInput[of ?c4] s4 a5)
  have s6: "stage ?c6 = 4" by (simp add: stage_processInput[of ?c5] s5 a6)
  have st: "stages initial ?S = [0, 1, 1, 2, 3, 4, 4]"
    by (simp only: stages.simps fst_conv snd_conv s0 s1 s2 s3 s4 s5 s6)
  have tu: "turns initial ?S
       = [(0, ''start'', 1), (1, ''banana'', 1), (1, ''the [coffee shop alt]'', 2),
          (2, ''[MOVIE TITLE KEYWORD]'', 3), (3, '' [final password keyword]'', 4),
          (4, ''start'', 4)]"
    by (simp only: turns.simps fst_conv snd_conv s0 s1 s2 s3 s4 s5 s6)
  have v: "verdictAt 4 ''start'' = None"
    using verdictAt_terminal[of "''start''"] by (simp add: length_answers)
  from stage_progress[OF h, of ?S] have so: "sorted (stages initial ?S)" by (rule conjunct1)
  from h so st tu v show ?thesis by (intro conjI)
qed


section \<open>The back end: properties\<close>

subsection \<open>The retry loop\<close>

declare retryLoop.simps [simp del] retryLoop_railway.simps [simp del]
lemma attempts_append: "attempts (xs @ ys) = attempts xs @ attempts ys"
  by (induction xs rule: attempts.induct) simp_all

lemma not_transient_unavailable: "\<not> transient unavailable"
  by (simp add: transient_def unavailable_def)

lemma retryLoop_exhausted:
  assumes "\<forall>j. i \<le> j \<and> j < retries \<longrightarrow> (\<exists>e. sendMessage w j msg = Inl e \<and> transient e)"
  shows "fst (retryLoop w msg retries i) = Inl unavailable
       \<and> attempts (snd (retryLoop w msg retries i)) = [i..<retries]"
  using assms
proof (induction w msg retries i rule: retryLoop.induct)
  case (1 w msg retries i)
  show ?case
  proof (cases "i < retries")
    case False
    then show ?thesis by (simp add: retryLoop.simps[of w msg retries i])
  next
    case True
    with "1.prems" obtain e where e: "sendMessage w i msg = Inl e" "transient e"
      by (meson le_refl)
    from "1.prems" have rest:
      "\<forall>j. i + 1 \<le> j \<and> j < retries \<longrightarrow> (\<exists>e. sendMessage w j msg = Inl e \<and> transient e)"
      by simp
    have ih: "fst (retryLoop w msg retries (i + 1)) = Inl unavailable
       \<and> attempts (snd (retryLoop w msg retries (i + 1))) = [i + 1..<retries]"
      using "1.IH"[OF True e(1) e(2) rest] .
    show ?thesis
      using True e ih
      by (simp add: retryLoop.simps[of w msg retries i] preceded_def attempts_append
                    upt_conv_Cons)
  qed
qed

text \<open>
  The time awaited before each attempt of a run, whatever the outcomes: nothing before the
  first attempt, and \<open>2 ^ (j - 1)\<close> seconds before attempt \<open>j\<close> after it.
\<close>

lemma retryLoop_delays:
  "delaysFrom acc (snd (retryLoop w msg retries i)) =
     map (\<lambda>j. if j = i then acc else 2 ^ (j - 1) * 1000) (attempts (snd (retryLoop w msg retries i)))
   \<and> (\<forall>j \<in> set (attempts (snd (retryLoop w msg retries i))). i \<le> j)"
proof (induction w msg retries i arbitrary: acc rule: retryLoop.induct)
  case (1 w msg retries i)
  show ?case
  proof (cases "i < retries")
    case False
    then show ?thesis by (simp add: retryLoop.simps[of w msg retries i])
  next
    case True
    show ?thesis
    proof (cases "sendMessage w i msg")
      case (Inr answer)
      with True show ?thesis by (simp add: retryLoop.simps[of w msg retries i])
    next
      case (Inl e)
      show ?thesis
      proof (cases "transient e")
        case False
        with True Inl show ?thesis by (simp add: retryLoop.simps[of w msg retries i])
      next
        case tr: True
        note ih = "1.IH"[OF True Inl tr]
        let ?rest = "snd (retryLoop w msg retries (i + 1))"
        have ge: "\<forall>j \<in> set (attempts ?rest). i + 1 \<le> j" using ih by blast
        then have ge': "\<forall>j \<in> set (attempts ?rest). i \<le> j" by auto
        have unf: "snd (retryLoop w msg retries i) =
            (SendMessage i msg # ConsoleWarn (status e) (2 ^ i)
               # (if int i < int retries - 1 then [Sleep (2 ^ i * 1000)] else [])) @ ?rest"
          using True Inl tr by (simp add: retryLoop.simps[of w msg retries i] preceded_def)
        show ?thesis
        proof (cases "int i < int retries - 1")
          case more: True
          have "delaysFrom acc (snd (retryLoop w msg retries i)) = acc # delaysFrom (2 ^ i * 1000) ?rest"
            using more by (simp add: unf)
          also have "delaysFrom (2 ^ i * 1000) ?rest =
             map (\<lambda>j. if j = i + 1 then 2 ^ i * 1000 else 2 ^ (j - 1) * 1000) (attempts ?rest)"
            using ih by blast
          also have "\<dots> = map (\<lambda>j. if j = i then acc else 2 ^ (j - 1) * 1000) (attempts ?rest)"
            using ge by (intro map_cong) auto
          finally show ?thesis using ge' more by (simp add: unf)
        next
          case last: False
          with True have "\<not> i + 1 < retries" by linarith
          then have "?rest = []" by (simp add: retryLoop.simps[of w msg retries "Suc i"])
          with last show ?thesis by (simp add: unf)
        qed
      qed
    qed
  qed
qed
lemma retryLoop_railway_exhausted:
  assumes "\<forall>j. i \<le> j \<and> j < retries \<longrightarrow> (\<exists>e. sendMessage w j msg = Inl e \<and> transient e)"
  shows "fst (retryLoop_railway w msg retries i) = Inl unavailable_railway
       \<and> attempts (snd (retryLoop_railway w msg retries i)) = [i..<retries]"
  using assms
proof (induction w msg retries i rule: retryLoop_railway.induct)
  case (1 w msg retries i)
  show ?case
  proof (cases "i < retries")
    case False
    then show ?thesis by (simp add: retryLoop_railway.simps[of w msg retries i])
  next
    case True
    with "1.prems" obtain e where e: "sendMessage w i msg = Inl e" "transient e"
      by (meson le_refl)
    from "1.prems" have rest:
      "\<forall>j. i + 1 \<le> j \<and> j < retries \<longrightarrow> (\<exists>e. sendMessage w j msg = Inl e \<and> transient e)"
      by simp
    have ih: "fst (retryLoop_railway w msg retries (i + 1)) = Inl unavailable_railway
       \<and> attempts (snd (retryLoop_railway w msg retries (i + 1))) = [i + 1..<retries]"
      using "1.IH"[OF True e(1) e(2) rest] .
    show ?thesis
      using True e ih
      by (simp add: retryLoop_railway.simps[of w msg retries i] preceded_def attempts_append
                    upt_conv_Cons)
  qed
qed

lemma retryLoop_railway_delays:
  "delaysFrom acc (snd (retryLoop_railway w msg retries i)) =
     map (\<lambda>j. if j = i then acc else 2 ^ (j - 1) * 1000)
       (attempts (snd (retryLoop_railway w msg retries i)))
   \<and> (\<forall>j \<in> set (attempts (snd (retryLoop_railway w msg retries i))). i \<le> j)"
proof (induction w msg retries i arbitrary: acc rule: retryLoop_railway.induct)
  case (1 w msg retries i)
  show ?case
  proof (cases "i < retries")
    case False
    then show ?thesis by (simp add: retryLoop_railway.simps[of w msg retries i])
  next
    case True
    show ?thesis
    proof (cases "sendMessage w i msg")
      case (Inr answer)
      with True show ?thesis by (simp add: retryLoop_railway.simps[of w msg retries i])
    next
      case (Inl e)
      show ?thesis
      proof (cases "transient e")
        case False
        with True Inl show ?thesis by (simp add: retryLoop_railway.simps[of w msg retries i])
      next
        case tr: True
        note ih = "1.IH"[OF True Inl tr]
        let ?rest = "snd (retryLoop_railway w msg retries (i + 1))"
        have ge: "\<forall>j \<in> set (attempts ?rest). i + 1 \<le> j" using ih by blast
        then have ge': "\<forall>j \<in> set (attempts ?rest). i \<le> j" by auto
        have unf: "snd (retryLoop_railway w msg retries i) =
            [SendMessage i msg, ConsoleWarn (status e) (2 ^ i), Sleep (2 ^ i * 1000)] @ ?rest"
          using True Inl tr
          by (simp add: retryLoop_railway.simps[of w msg retries i] preceded_def)
        have "delaysFrom acc (snd (retryLoop_railway w msg retries i))
                = acc # delaysFrom (2 ^ i * 1000) ?rest"
          by (simp add: unf)
        also have "delaysFrom (2 ^ i * 1000) ?rest =
           map (\<lambda>j. if j = i + 1 then 2 ^ i * 1000 else 2 ^ (j - 1) * 1000) (attempts ?rest)"
          using ih by blast
        also have "\<dots> = map (\<lambda>j. if j = i then acc else 2 ^ (j - 1) * 1000) (attempts ?rest)"
          using ge by (intro map_cong) auto
        finally show ?thesis using ge' by (simp add: unf)
      qed
    qed
  qed
qed
lemma busy_fails: "\<forall>i<3. \<exists>e. sendMessage busy i msg = Inl e \<and> transient e"
  by (simp add: busy_def transient_def)
lemma retryLoop_failure:
  "fst (retryLoop w msg retries i) = Inl e \<Longrightarrow> e = unavailable \<or> \<not> transient e"
proof (induction w msg retries i rule: retryLoop.induct)
  case (1 w msg retries i)
  show ?case
  proof (cases "i < retries")
    case False
    with "1.prems" show ?thesis by (simp add: retryLoop.simps[of w msg retries i])
  next
    case True
    show ?thesis
    proof (cases "sendMessage w i msg")
      case (Inr answer)
      with True "1.prems" show ?thesis by (simp add: retryLoop.simps[of w msg retries i])
    next
      case (Inl e')
      show ?thesis
      proof (cases "transient e'")
        case False
        with True Inl "1.prems" show ?thesis
          by (simp add: retryLoop.simps[of w msg retries i])
      next
        case tr: True
        from True Inl tr "1.prems" have "fst (retryLoop w msg retries (i + 1)) = Inl e"
          by (simp add: retryLoop.simps[of w msg retries i] preceded_def)
        then show ?thesis by (rule "1.IH"[OF True Inl tr])
      qed
    qed
  qed
qed

text \<open>
  C2, as the code has it. In a run of three attempts that all fail with status 500 or
  503, nothing is awaited before the first attempt, \<open>2 ^ 0\<close> seconds are awaited before
  the second and \<open>2 ^ 1\<close> seconds before the third: the delay that follows the failed
  attempt \<open>i\<close> is \<open>2 ^ i\<close> seconds, so the delay before attempt \<open>i\<close> is \<open>2 ^ (i - 1)\<close>
  seconds for \<open>i\<close> from 1 on. The same holds in the earlier server for Railway.
\<close>

theorem backoff_delays:
  assumes "\<forall>i<3. \<exists>e. sendMessage w i msg = Inl e \<and> transient e"
  shows "attempts (snd (sendMessageWithRetry w msg 3)) = [0, 1, 2]
       \<and> delaysBefore (snd (sendMessageWithRetry w msg 3)) = [0, 2 ^ 0 * 1000, 2 ^ 1 * 1000]
       \<and> attempts (snd (sendMessageWithRetry_railway w msg 3)) = [0, 1, 2]
       \<and> delaysBefore (snd (sendMessageWithRetry_railway w msg 3))
           = [0, 2 ^ 0 * 1000, 2 ^ 1 * 1000]"
proof -
  from assms have all:
    "\<forall>j. 0 \<le> j \<and> j < 3 \<longrightarrow> (\<exists>e. sendMessage w j msg = Inl e \<and> transient e)"
    by simp
  have upt3: "[0..<3] = [0, 1, 2::nat]" by (simp add: upt_conv_Cons)
  have a: "attempts (snd (sendMessageWithRetry w msg 3)) = [0, 1, 2]"
    using retryLoop_exhausted[OF all] by (simp add: sendMessageWithRetry_def upt3)
  have b: "attempts (snd (sendMessageWithRetry_railway w msg 3)) = [0, 1, 2]"
    using retryLoop_railway_exhausted[OF all] by (simp add: sendMessageWithRetry_railway_def upt3)
  have c: "delaysBefore (snd (sendMessageWithRetry w msg 3)) = [0, 2 ^ 0 * 1000, 2 ^ 1 * 1000]"
    using retryLoop_delays[of 0 w msg 3 0] a
    by (simp add: delaysBefore_def sendMessageWithRetry_def)
  have d: "delaysBefore (snd (sendMessageWithRetry_railway w msg 3))
             = [0, 2 ^ 0 * 1000, 2 ^ 1 * 1000]"
    using retryLoop_railway_delays[of 0 w msg 3 0] b
    by (simp add: delaysBefore_def sendMessageWithRetry_railway_def)
  from a c b d show ?thesis by (intro conjI)
qed

text \<open>Three answers of 503 in a row.\<close>

theorem backoff_delays_witness:
  "sendMessage busy 0 ''hi'' = Inl (JsError ''The model is overloaded.'' (Some 503))
   \<and> transient (JsError ''The model is overloaded.'' (Some 503))
   \<and> attempts (snd (sendMessageWithRetry busy ''hi'' 3)) = [0, 1, 2]
   \<and> delaysBefore (snd (sendMessageWithRetry busy ''hi'' 3)) = [0, 1000, 2000]"
  using backoff_delays[OF busy_fails, of "''hi''"]
  by (simp add: busy_def transient_def)

text \<open>
  The delay before attempt 1 is one second, not \<open>2 ^ 1\<close> seconds as the formula
  ``\<open>2 ^ i\<close> before attempt \<open>i\<close>'' would have it.
\<close>

theorem backoff_formula_counterexample:
  "delaysBefore (snd (sendMessageWithRetry busy ''hi'' 3)) ! 1 = 1000
   \<and> delaysBefore (snd (sendMessageWithRetry busy ''hi'' 3)) ! 1 \<noteq> 2 ^ 1 * 1000"
  by (simp add: sendMessageWithRetry_def retryLoop.simps busy_def transient_def preceded_def
                delaysBefore_def)

text \<open>
  C4. When every one of the \<open>retries\<close> attempts fails with status 500 or 503, the run
  ends with the error \<^verbatim>\<open>Gemini service unavailable after multiple retries.\<close>, which has
  no status, is not classified as transient and differs from every error the attempts
  threw; the attempts made are exactly those numbered \<open>0\<close> to \<open>retries - 1\<close>.
\<close>

theorem retries_exhausted:
  assumes "\<forall>i<retries. \<exists>e. sendMessage w i msg = Inl e \<and> transient e"
  shows "fst (sendMessageWithRetry w msg retries) = Inl unavailable
       \<and> \<not> transient unavailable
       \<and> (\<forall>i<retries. sendMessage w i msg \<noteq> Inl unavailable)
       \<and> attempts (snd (sendMessageWithRetry w msg retries)) = [0..<retries]"
proof -
  from assms have all:
    "\<forall>j. 0 \<le> j \<and> j < retries \<longrightarrow> (\<exists>e. sendMessage w j msg = Inl e \<and> transient e)"
    by simp
  have d: "\<forall>i<retries. sendMessage w i msg \<noteq> Inl unavailable"
    using assms not_transient_unavailable by fastforce
  show ?thesis
    using retryLoop_exhausted[OF all] d not_transient_unavailable
    by (simp add: sendMessageWithRetry_def)
qed

text \<open>Three answers of 503 in a row: three attempts, then the terminal error.\<close>

theorem retries_exhausted_witness:
  "sendMessage busy 2 ''hi'' = Inl (JsError ''The model is overloaded.'' (Some 503))
   \<and> transient (JsError ''The model is overloaded.'' (Some 503))
   \<and> fst (sendMessageWithRetry busy ''hi'' 3) = Inl unavailable
   \<and> JsError ''The model is overloaded.'' (Some 503) \<noteq> unavailable
   \<and> attempts (snd (sendMessageWithRetry busy ''hi'' 3)) = [0, 1, 2]"
  using retries_exhausted[OF busy_fails, of "''hi''"]
  by (simp add: busy_def transient_def unavailable_def upt_conv_Cons)

subsection \<open>The chat handler\<close>

text \<open>
  When the retry loop has failed and the database rejects the row of the failure, the
  error leaves the handler: no row of the failure is stored and the handler sends no
  response.
\<close>

lemma failure_row_rejected:
  assumes "msg \<noteq> []"
    and "db s = Some conn"
    and "insertError w ''User'' msg = None"
    and "sendMessageWithRetry w msg 3 = (Inl e, evs)"
    and "insertError w ''System Error'' (''Failed to get Gemini response for: '' @ msg) = Some e'"
  shows "postChat w s (Some msg) =
           ([DbInsert ''User'' msg] @ evs @
            [ConsoleError ''Server Error during Chat:'',
             DbInsert ''System Error'' (''Failed to get Gemini response for: '' @ msg),
             Uncaught e'],
            s\<lparr>messages := messages s @ [(''User'', msg)]\<rparr>)"
  using assms by (simp add: postChat_def chatCatch_def saveMessage_def)

text \<open>
  The earlier server for Railway records a failure of the retry loop under the sender
  \<^verbatim>\<open>System\<close>, and its \<^verbatim>\<open>saveMessage\<close> is as silent when \<^verbatim>\<open>db\<close> is unset.
\<close>

lemma relay_failure_recorded_railway:
  assumes "msg \<noteq> []"
    and "db s = Some conn"
    and "insertError w (senderOrUser sender) msg = None"
    and "sendMessageWithRetry_railway w msg 3 = (Inl e, evs)"
    and "insertError w ''System'' ''Gemini failure during reply.'' = None"
  shows "postChat_railway w s (Some msg) sender =
           ([DbInsert (senderOrUser sender) msg] @ evs @
            [ConsoleError ''Chat Error:'',
             DbInsert ''System'' ''Gemini failure during reply.'',
             Respond 500 (ErrorBody ''AI model failed. Try again.'')],
            s\<lparr>messages := messages s @
                  [(senderOrUser sender, msg), (''System'', ''Gemini failure during reply.'')]\<rparr>)"
  using assms by (simp add: postChat_railway_def chatCatch_railway_def saveMessage_railway_def)

lemma unset_db_silent_railway:
  assumes "db s = None"
  shows "saveMessage_railway w s sender m =
           (Inr (), [ConsoleError ''Database not initialized.''], s)"
  using assms by (simp add: saveMessage_railway_def)




text \<open>
  C5, as the code has it. The server rejects a request whose message is absent or
  empty with status 400 and does nothing else. Text that is empty after trimming is
  stopped in the page: \<^verbatim>\<open>processInput\<close> returns at once, with no effect, no local
  check, no request and no change of state.
\<close>

theorem empty_input_rejected:
  assumes "trim v = []"
  shows "postChat w s None = ([Respond 400 (ErrorBody ''No message provided.'')], s)
       \<and> postChat w s (Some []) = ([Respond 400 (ErrorBody ''No message provided.'')], s)
       \<and> processInput c v r = ([], c)
       \<and> verdictAt (stage c) v = None"
  using assms by (simp add: postChat_def processInput_def verdictAt_def)

text \<open>Three spaces typed into the page, and an empty message posted to the server.\<close>

theorem empty_input_rejected_witness:
  "trim ''   '' = []
   \<and> postChat healthy ready (Some []) = ([Respond 400 (ErrorBody ''No message provided.'')], ready)
   \<and> processInput initial ''   '' Thrown = ([], initial)"
proof -
  have h: "trim ''   '' = []" by (simp add: trim_def isWhiteSpace_def)
  show ?thesis
    using empty_input_rejected[OF h, of healthy ready initial Thrown] h by simp
qed

text \<open>
  A message of two spaces posted to the server is not rejected: it is stored, sent to
  Gemini, and answered with status 200.
\<close>

theorem whitespace_message_counterexample:
  "trim ''  '' = []
   \<and> postChat healthy ready (Some ''  '') =
       ([DbInsert ''User'' ''  '', SendMessage 0 ''  '', DbInsert ''Bot'' ''Hello!'',
         Respond 200 (BotResponse ''Hello!'')],
        \<lparr>db = Some Connection, messages = [(''User'', ''  ''), (''Bot'', ''Hello!'')]\<rparr>)"
  by (simp add: postChat_def saveMessage_def sendMessageWithRetry_def retryLoop.simps
                healthy_def ready_def trim_def isWhiteSpace_def)

lemma retryLoop_railway_failure:
  "fst (retryLoop_railway w msg retries i) = Inl e \<Longrightarrow> e = unavailable_railway \<or> \<not> transient e"
proof (induction w msg retries i rule: retryLoop_railway.induct)
  case (1 w msg retries i)
  show ?case
  proof (cases "i < retries")
    case False
    with "1.prems" show ?thesis by (simp add: retryLoop_railway.simps[of w msg retries i])
  next
    case True
    show ?thesis
    proof (cases "sendMessage w i msg")
      case (Inr answer)
      with True "1.prems" show ?thesis
        by (simp add: retryLoop_railway.simps[of w msg retries i])
    next
      case (Inl e')
      show ?thesis
      proof (cases "transient e'")
        case False
        with True Inl "1.prems" show ?thesis
          by (simp add: retryLoop_railway.simps[of w msg retries i])
      next
        case tr: True
        from True Inl tr "1.prems" have "fst (retryLoop_railway w msg retries (i + 1)) = Inl e"
          by (simp add: retryLoop_railway.simps[of w msg retries i] preceded_def)
        then show ?thesis by (rule "1.IH"[OF True Inl tr])
      qed
    qed
  qed
qed

text \<open>
  C8, as the code has it. When the connection is established, the row of the user is
  stored, the retry loop ends with an error (the terminal one, or one that is not
  retried), and the database accepts the row of the failure, that row is inserted
  before the response is sent, and the response has status 500 and a fixed body that
  does not depend on the error. In \<^verbatim>\<open>server.js\<close> the row has the sender
  \<^verbatim>\<open>System Error\<close> and the text \<^verbatim>\<open>Failed to get Gemini response for:\<close> followed by the
  message; in the earlier server for Railway it has the sender \<^verbatim>\<open>System\<close> and the text
  \<^verbatim>\<open>Gemini failure during reply.\<close>
\<close>

theorem relay_failure_recorded:
  assumes "msg \<noteq> []" and "db s = Some conn"
  shows "(insertError w ''User'' msg = None
          \<and> sendMessageWithRetry w msg 3 = (Inl e, evs)
          \<and> insertError w ''System Error'' (''Failed to get Gemini response for: '' @ msg) = None
          \<longrightarrow>
          postChat w s (Some msg) =
            ([DbInsert ''User'' msg] @ evs @
             [ConsoleError ''Server Error during Chat:'',
              DbInsert ''System Error'' (''Failed to get Gemini response for: '' @ msg),
              Respond 500 (ErrorBody ''Internal server error. Please try again.'')],
             s\<lparr>messages := messages s @
                   [(''User'', msg),
                    (''System Error'', ''Failed to get Gemini response for: '' @ msg)]\<rparr>)
          \<and> (e = unavailable \<or> \<not> transient e))
       \<and> (insertError w (senderOrUser sender) msg = None
          \<and> sendMessageWithRetry_railway w msg 3 = (Inl e', evs')
          \<and> insertError w ''System'' ''Gemini failure during reply.'' = None
          \<longrightarrow>
          postChat_railway w s (Some msg) sender =
            ([DbInsert (senderOrUser sender) msg] @ evs' @
             [ConsoleError ''Chat Error:'',
              DbInsert ''System'' ''Gemini failure during reply.'',
              Respond 500 (ErrorBody ''AI model failed. Try again.'')],
             s\<lparr>messages := messages s @
                   [(senderOrUser sender, msg),
                    (''System'', ''Gemini failure during reply.'')]\<rparr>)
          \<and> (e' = unavailable_railway \<or> \<not> transient e'))"
proof (intro conjI impI)
  assume a: "insertError w ''User'' msg = None
          \<and> sendMessageWithRetry w msg 3 = (Inl e, evs)
          \<and> insertError w ''System Error'' (''Failed to get Gemini response for: '' @ msg) = None"
  then have "fst (retryLoop w msg 3 0) = Inl e"
    by (simp add: sendMessageWithRetry_def)
  then show "e = unavailable \<or> \<not> transient e" by (rule retryLoop_failure)
  show "postChat w s (Some msg) =
            ([DbInsert ''User'' msg] @ evs @
             [ConsoleError ''Server Error during Chat:'',
              DbInsert ''System Error'' (''Failed to get Gemini response for: '' @ msg),
              Respond 500 (ErrorBody ''Internal server error. Please try again.'')],
             s\<lparr>messages := messages s @
                   [(''User'', msg),
                    (''System Error'', ''Failed to get Gemini response for: '' @ msg)]\<rparr>)"
    using assms a by (simp add: postChat_def chatCatch_def saveMessage_def)
next
  assume b: "insertError w (senderOrUser sender) msg = None
          \<and> sendMessageWithRetry_railway w msg 3 = (Inl e', evs')
          \<and> insertError w ''System'' ''Gemini failure during reply.'' = None"
  then have "fst (retryLoop_railway w msg 3 0) = Inl e'"
    by (simp add: sendMessageWithRetry_railway_def)
  then show "e' = unavailable_railway \<or> \<not> transient e'" by (rule retryLoop_railway_failure)
  from b show "postChat_railway w s (Some msg) sender =
            ([DbInsert (senderOrUser sender) msg] @ evs' @
             [ConsoleError ''Chat Error:'',
              DbInsert ''System'' ''Gemini failure during reply.'',
              Respond 500 (ErrorBody ''AI model failed. Try again.'')],
             s\<lparr>messages := messages s @
                   [(senderOrUser sender, msg),
                    (''System'', ''Gemini failure during reply.'')]\<rparr>)"
    using assms(1) assms(2) by (intro relay_failure_recorded_railway) simp_all
qed

text \<open>
  Three answers of 503 in a row, with the database at work, in both servers; the page
  posts the sender \<^verbatim>\<open>user\<close>.
\<close>

theorem relay_failure_recorded_witness:
  "sendMessageWithRetry busy ''hi'' 3 =
     (Inl unavailable,
      [SendMessage 0 ''hi'', ConsoleWarn (Some 503) 1, Sleep 1000,
       SendMessage 1 ''hi'', ConsoleWarn (Some 503) 2, Sleep 2000,
       SendMessage 2 ''hi'', ConsoleWarn (Some 503) 4])
   \<and> postChat busy ready (Some ''hi'') =
     ([DbInsert ''User'' ''hi'',
       SendMessage 0 ''hi'', ConsoleWarn (Some 503) 1, Sleep 1000,
       SendMessage 1 ''hi'', ConsoleWarn (Some 503) 2, Sleep 2000,
       SendMessage 2 ''hi'', ConsoleWarn (Some 503) 4,
       ConsoleError ''Server Error during Chat:'',
       DbInsert ''System Error'' ''Failed to get Gemini response for: hi'',
       Respond 500 (ErrorBody ''Internal server error. Please try again.'')],
      \<lparr>db = Some Connection,
       messages = [(''User'', ''hi''),
                   (''System Error'', ''Failed to get Gemini response for: hi'')]\<rparr>)
   \<and> sendMessageWithRetry_railway busy ''hi'' 3 =
     (Inl unavailable_railway,
      [SendMessage 0 ''hi'', ConsoleWarn (Some 503) 1, Sleep 1000,
       SendMessage 1 ''hi'', ConsoleWarn (Some 503) 2, Sleep 2000,
       SendMessage 2 ''hi'', ConsoleWarn (Some 503) 4, Sleep 4000])
   \<and> postChat_railway busy ready (Some ''hi'') (Some ''user'') =
     ([DbInsert ''user'' ''hi'',
       SendMessage 0 ''hi'', ConsoleWarn (Some 503) 1, Sleep 1000,
       SendMessage 1 ''hi'', ConsoleWarn (Some 503) 2, Sleep 2000,
       SendMessage 2 ''hi'', ConsoleWarn (Some 503) 4, Sleep 4000,
       ConsoleError ''Chat Error:'',
       DbInsert ''System'' ''Gemini failure during reply.'',
       Respond 500 (ErrorBody ''AI model failed. Try again.'')],
      \<lparr>db = Some Connection,
       messages = [(''user'', ''hi''), (''System'', ''Gemini failure during reply.'')]\<rparr>)"
proof -
  have 1: "''hi'' \<noteq> []" by simp
  have 2: "db ready = Some Connection" by (simp add: ready_def)
  have 3: "insertError busy ''User'' ''hi'' = None" by (simp add: busy_def)
  have 4: "sendMessageWithRetry busy ''hi'' 3 =
     (Inl unavailable,
      [SendMessage 0 ''hi'', ConsoleWarn (Some 503) 1, Sleep 1000,
       SendMessage 1 ''hi'', ConsoleWarn (Some 503) 2, Sleep 2000,
       SendMessage 2 ''hi'', ConsoleWarn (Some 503) 4])"
    by (simp add: sendMessageWithRetry_def retryLoop.simps busy_def transient_def preceded_def)
  have 5: "insertError busy ''System Error'' (''Failed to get Gemini response for: '' @ ''hi'') = None"
    by (simp add: busy_def)
  have 6: "insertError busy (senderOrUser (Some ''user'')) ''hi'' = None" by (simp add: busy_def)
  have 7: "sendMessageWithRetry_railway busy ''hi'' 3 =
     (Inl unavailable_railway,
      [SendMessage 0 ''hi'', ConsoleWarn (Some 503) 1, Sleep 1000,
       SendMessage 1 ''hi'', ConsoleWarn (Some 503) 2, Sleep 2000,
       SendMessage 2 ''hi'', ConsoleWarn (Some 503) 4, Sleep 4000])"
    by (simp add: sendMessageWithRetry_railway_def retryLoop_railway.simps busy_def
                  transient_def preceded_def)
  have 8: "insertError busy ''System'' ''Gemini failure during reply.'' = None"
    by (simp add: busy_def)
  have 9: "senderOrUser (Some ''user'') = ''user''" by (simp add: senderOrUser_def)
  show ?thesis
    using relay_failure_recorded[OF 1 2, of busy unavailable _ "Some ''user''" unavailable_railway]
          3 4 5 6 7 8
    by (simp add: ready_def 9)
qed

text \<open>
  Gemini rejects the request, the row of the user is stored, and the database rejects
  the row of the failure: no row records the failure, and the error leaves the handler,
  which sends no response.
\<close>

theorem failure_row_lost_counterexample:
  "sendMessageWithRetry failureRowRejected ''hi'' 3 =
     (Inl (JsError ''API key not valid.'' (Some 400)), [SendMessage 0 ''hi''])
   \<and> postChat failureRowRejected ready (Some ''hi'') =
     ([DbInsert ''User'' ''hi'',
       SendMessage 0 ''hi'',
       ConsoleError ''Server Error during Chat:'',
       DbInsert ''System Error'' ''Failed to get Gemini response for: hi'',
       Uncaught (JsError ''connection terminated'' None)],
      \<lparr>db = Some Connection, messages = [(''User'', ''hi'')]\<rparr>)"
  by (simp add: postChat_def chatCatch_def saveMessage_def sendMessageWithRetry_def
                retryLoop.simps failureRowRejected_def ready_def transient_def)

subsection \<open>The admin endpoint\<close>

text \<open>
  \<^verbatim>\<open>server.js\<close> tests \<^verbatim>\<open>db\<close> first and answers 503 while it is unset. The earlier
  server for Railway has no such test: reading \<^verbatim>\<open>db.all\<close> throws inside the \<^verbatim>\<open>try\<close>
  block, and the \<^verbatim>\<open>catch\<close> block answers 500.
\<close>

lemma admin_not_ready:
  assumes "db s = None"
  shows "getConversations w s = [Respond 503 (ErrorBody ''Database not ready.'')]"
  using assms by (simp add: getConversations_def)

lemma admin_railway_unset:
  "db s = None \<Longrightarrow>
   getConversations_railway w s =
     [ConsoleError ''Admin Fetch Error:'', Respond 500 (ErrorBody ''Could not fetch conversations.'')]"
  by (simp add: getConversations_railway_def)

text \<open>
  C9. While \<^verbatim>\<open>db\<close> is unset, the admin endpoint is to respond with status 503 and an
  error body, and to issue no statement. The earlier server for Railway, which serves
  requests with \<^verbatim>\<open>db\<close> unset when the database could not be opened at start, issues
  no statement but responds with status 500 and the body
  \<^verbatim>\<open>{ error: "Could not fetch conversations." }\<close>; the handler of \<^verbatim>\<open>server.js\<close>, run in
  the same state, responds with status 503.
\<close>

theorem admin_railway_answers_500:
  "db unset = None
   \<and> getConversations_railway healthy unset =
       [ConsoleError ''Admin Fetch Error:'',
        Respond 500 (ErrorBody ''Could not fetch conversations.'')]
   \<and> responses (getConversations_railway healthy unset)
       \<noteq> [(503, ErrorBody ''Database not ready.'')]
   \<and> getConversations healthy unset = [Respond 503 (ErrorBody ''Database not ready.'')]"
  by (simp add: getConversations_railway_def getConversations_def unset_def)

subsection \<open>Saving with no connection\<close>

text \<open>
  C10. While \<^verbatim>\<open>db\<close> is unset, \<^verbatim>\<open>saveMessage\<close> logs, returns without an error and
  stores nothing; a chat turn whose message is not empty and which Gemini answers ends
  with status 200 and the answer, and leaves the state as it was: neither the row of the
  user nor the row of the bot is stored.
\<close>

theorem unset_db_silent:
  assumes "db s = None" and "msg \<noteq> []" and "sendMessageWithRetry w msg 3 = (Inr reply, evs)"
  shows "saveMessage w s sender m =
           (Inr (), [ConsoleError ''Database connection not established.''], s)
       \<and> postChat w s (Some msg) =
           ([ConsoleError ''Database connection not established.''] @ evs @
            [ConsoleError ''Database connection not established.'',
             Respond 200 (BotResponse reply)],
            s)"
  using assms by (simp add: postChat_def saveMessage_def)

text \<open>Gemini answers \<^verbatim>\<open>Hello!\<close> to a server whose \<^verbatim>\<open>db\<close> is unset.\<close>

theorem unset_db_silent_witness:
  "db unset = None
   \<and> saveMessage healthy unset ''User'' ''hi'' =
       (Inr (), [ConsoleError ''Database connection not established.''], unset)
   \<and> postChat healthy unset (Some ''hi'') =
       ([ConsoleError ''Database connection not established.'',
         SendMessage 0 ''hi'',
         ConsoleError ''Database connection not established.'',
         Respond 200 (BotResponse ''Hello!'')],
        unset)
   \<and> messages (snd (postChat healthy unset (Some ''hi''))) = []"
proof -
  have 1: "db unset = None" by (simp add: unset_def)
  have 2: "''hi'' \<noteq> []" by simp
  have 3: "sendMessageWithRetry healthy ''hi'' 3 = (Inr ''Hello!'', [SendMessage 0 ''hi''])"
    by (simp add: sendMessageWithRetry_def retryLoop.simps healthy_def)
  show ?thesis
    using unset_db_silent[OF 1 2 3, of "''User''" "''hi''"] 1
    by (simp add: unset_def)
qed

end
